theory Spec2Isabelle
  imports Main "HOL-Library.AList"
begin

section \<open>Data model (types/index.ts)\<close>

text \<open>
  A JavaScript string is modelled as a \<open>string\<close>, each character standing for one code
  unit below \<open>0x100\<close>. A \<open>Date\<close> is the number of milliseconds since the epoch, an
  \<open>int\<close>. Record fields carry a one-letter prefix of their interface (\<open>u_id\<close> is
  \<open>User.id\<close>, \<open>m_type\<close> is \<open>Message.type\<close>, \<open>r_users\<close> is \<open>Room.users\<close>), since
  the interfaces share field names.

  A JavaScript \<open>Map\<close> is an association list in insertion order. \<open>Map.set\<close> is
  \<open>AList.update\<close> (an existing key keeps its place, a new key goes to the end),
  \<open>Map.get\<close> is \<open>map_of\<close>, \<open>Map.delete\<close> is \<open>AList.delete\<close>, \<open>Map.size\<close> is
  \<open>length\<close> (the keys of a \<open>Map\<close> are distinct) and \<open>Map.values()\<close> is \<open>map snd\<close>.
\<close>

record User =
  u_id :: string
  u_username :: string
  u_joinedAt :: int

datatype MessageType = TEXT | SYSTEM | USER_JOINED | USER_LEFT

record Message =
  m_id :: string
  m_userId :: string
  m_username :: string
  m_content :: string
  m_timestamp :: int
  m_type :: MessageType

record Room =
  r_id :: string
  r_name :: string
  r_users :: "(string \<times> User) list"
  r_messages :: "Message list"
  r_createdAt :: int

datatype ChatEventType =
  USER_CONNECTED | USER_DISCONNECTED | MESSAGE_SENT | ROOM_JOINED | ROOM_LEFT

text \<open>
  \<open>ChatEvent.payload\<close> has type \<open>any\<close>; the three places that build one write
  \<open>{roomId, user}\<close> or \<open>{roomId, message}\<close>. Reading a property that an object does
  not have gives \<open>undefined\<close>, here \<open>None\<close>.
\<close>

record Payload =
  p_roomId :: string
  p_user :: "User option"
  p_message :: "Message option"

record ChatEvent =
  e_type :: ChatEventType
  e_payload :: Payload
  e_timestamp :: int

section \<open>ChatManager\<close>

text \<open>
  The three private fields of the class. \<open>eventStream\<close> is an rxjs \<open>Subject\<close>: the
  model keeps the sequence of events passed to its \<open>next\<close>, oldest first; a subscriber
  receives the events passed after it subscribed. \<open>roomSubjects\<close> maps a room id to
  a \<open>BehaviorSubject\<close>, kept as its current value.

  \<open>uuidv4()\<close> and \<open>new Date()\<close> are inputs of the operations that call them: \<open>uuid\<close>
  is the identifier drawn, \<open>tm\<close> the time read for the message and \<open>te\<close> the time read
  for the event.
\<close>

record ChatManager =
  rooms :: "(string \<times> Room) list"
  eventStream :: "ChatEvent list"
  roomSubjects :: "(string \<times> Room) list"

datatype error = Error string

definition createRoom :: "ChatManager \<Rightarrow> string \<Rightarrow> string \<Rightarrow> int \<Rightarrow> Room \<times> ChatManager" where
  "createRoom cm rid nm now =
     (let room = \<lparr>r_id = rid, r_name = nm, r_users = [], r_messages = [], r_createdAt = now\<rparr>
      in (room, cm\<lparr>rooms := AList.update rid room (rooms cm),
                    roomSubjects := AList.update rid room (roomSubjects cm)\<rparr>))"

definition new_ChatManager :: "int \<Rightarrow> ChatManager" where
  "new_ChatManager now =
     snd (createRoom \<lparr>rooms = [], eventStream = [], roomSubjects = []\<rparr>
            ''general'' ''General Chat'' now)"

definition getRoom :: "ChatManager \<Rightarrow> string \<Rightarrow> Room option" where
  "getRoom cm roomId = map_of (rooms cm) roomId"

definition getAllRooms :: "ChatManager \<Rightarrow> Room list" where
  "getAllRooms cm = map snd (rooms cm)"

definition updateRoom :: "ChatManager \<Rightarrow> Room \<Rightarrow> ChatManager" where
  "updateRoom cm room =
     cm\<lparr>rooms := AList.update (r_id room) room (rooms cm),
        roomSubjects :=
          (case map_of (roomSubjects cm) (r_id room) of
             None \<Rightarrow> roomSubjects cm
           | Some _ \<Rightarrow> AList.update (r_id room) room (roomSubjects cm))\<rparr>"

definition emitEvent :: "ChatManager \<Rightarrow> ChatEvent \<Rightarrow> ChatManager" where
  "emitEvent cm event = cm\<lparr>eventStream := eventStream cm @ [event]\<rparr>"

definition addUserToRoom ::
  "ChatManager \<Rightarrow> string \<Rightarrow> User \<Rightarrow> string \<Rightarrow> int \<Rightarrow> int \<Rightarrow> bool \<times> ChatManager" where
  "addUserToRoom cm roomId user uuid tm te =
     (case map_of (rooms cm) roomId of
        None \<Rightarrow> (False, cm)
      | Some room \<Rightarrow>
          let joinMessage =
                \<lparr>m_id = uuid, m_userId = ''system'', m_username = ''System'',
                 m_content = u_username user @ '' joined the room'',
                 m_timestamp = tm, m_type = USER_JOINED\<rparr>;
              room' = room\<lparr>r_users := AList.update (u_id user) user (r_users room),
                           r_messages := r_messages room @ [joinMessage]\<rparr>;
              cm' = updateRoom cm room'
          in (True,
              emitEvent cm'
                \<lparr>e_type = ROOM_JOINED,
                 e_payload = \<lparr>p_roomId = roomId, p_user = Some user, p_message = None\<rparr>,
                 e_timestamp = te\<rparr>))"

definition removeUserFromRoom ::
  "ChatManager \<Rightarrow> string \<Rightarrow> string \<Rightarrow> string \<Rightarrow> int \<Rightarrow> int \<Rightarrow> bool \<times> ChatManager" where
  "removeUserFromRoom cm roomId userId uuid tm te =
     (case map_of (rooms cm) roomId of
        None \<Rightarrow> (False, cm)
      | Some room \<Rightarrow>
          (case map_of (r_users room) userId of
             None \<Rightarrow> (False, cm)
           | Some user \<Rightarrow>
               let leaveMessage =
                     \<lparr>m_id = uuid, m_userId = ''system'', m_username = ''System'',
                      m_content = u_username user @ '' left the room'',
                      m_timestamp = tm, m_type = USER_LEFT\<rparr>;
                   room' = room\<lparr>r_users := AList.delete userId (r_users room),
                                r_messages := r_messages room @ [leaveMessage]\<rparr>;
                   cm' = updateRoom cm room'
               in (True,
                   emitEvent cm'
                     \<lparr>e_type = ROOM_LEFT,
                      e_payload = \<lparr>p_roomId = roomId, p_user = Some user, p_message = None\<rparr>,
                      e_timestamp = te\<rparr>)))"

definition addMessage ::
  "ChatManager \<Rightarrow> string \<Rightarrow> string \<Rightarrow> string \<Rightarrow> string \<Rightarrow> int \<Rightarrow> int
     \<Rightarrow> Message option \<times> ChatManager" where
  "addMessage cm roomId userId content uuid tm te =
     (case map_of (rooms cm) roomId of
        None \<Rightarrow> (None, cm)
      | Some room \<Rightarrow>
          (case map_of (r_users room) userId of
             None \<Rightarrow> (None, cm)
           | Some user \<Rightarrow>
               let message =
                     \<lparr>m_id = uuid, m_userId = userId, m_username = u_username user,
                      m_content = content, m_timestamp = tm, m_type = TEXT\<rparr>;
                   room' = room\<lparr>r_messages := r_messages room @ [message]\<rparr>;
                   cm' = updateRoom cm room'
               in (Some message,
                   emitEvent cm'
                     \<lparr>e_type = MESSAGE_SENT,
                      e_payload = \<lparr>p_roomId = roomId, p_user = None, p_message = Some message\<rparr>,
                      e_timestamp = te\<rparr>)))"

text \<open>
  \<open>Array.prototype.slice(start)\<close> with one argument: a negative \<open>start\<close> counts from
  the end and is clamped at the beginning, a positive one is clamped at the end.
\<close>

definition slice :: "'a list \<Rightarrow> int \<Rightarrow> 'a list" where
  "slice xs start =
     (let len = int (length xs);
          k = (if start < 0 then max (len + start) 0 else min start len)
      in drop (nat k) xs)"

text \<open>
  \<open>limit\<close> is an optional number: \<open>None\<close> is \<open>undefined\<close>, \<open>Some l\<close> an integer. The
  test \<open>limit ? \<dots> : \<dots>\<close> takes its second branch for \<open>undefined\<close> and for \<open>0\<close>.
\<close>

definition getRoomMessages :: "ChatManager \<Rightarrow> string \<Rightarrow> int option \<Rightarrow> Message list" where
  "getRoomMessages cm roomId limit =
     (case map_of (rooms cm) roomId of
        None \<Rightarrow> []
      | Some room \<Rightarrow>
          let messages = r_messages room
          in (case limit of
                None \<Rightarrow> messages
              | Some l \<Rightarrow> if l \<noteq> 0 then slice messages (- l) else messages))"

definition getRoomUsers :: "ChatManager \<Rightarrow> string \<Rightarrow> User list" where
  "getRoomUsers cm roomId =
     (case map_of (rooms cm) roomId of
        None \<Rightarrow> []
      | Some room \<Rightarrow> map snd (r_users room))"

text \<open>
  \<open>getRoomStream\<close> throws when the room has no subject; otherwise the observable it
  returns starts with the subject's current value.
\<close>

definition getRoomStream :: "ChatManager \<Rightarrow> string \<Rightarrow> error + Room" where
  "getRoomStream cm roomId =
     (case map_of (roomSubjects cm) roomId of
        None \<Rightarrow> Inl (Error (''Room '' @ roomId @ '' not found''))
      | Some room \<Rightarrow> Inr room)"

text \<open>
  The derived streams are pipelines over the events of the subject; each takes the
  events delivered to the subscription and gives what the subscriber receives.
\<close>

definition getEventStream :: "ChatEvent list \<Rightarrow> ChatEvent list" where
  "getEventStream events = events"

definition getRoomEventStream :: "string \<Rightarrow> ChatEvent list \<Rightarrow> ChatEvent list" where
  "getRoomEventStream roomId events =
     filter (\<lambda>event. p_roomId (e_payload event) = roomId) events"

definition getMessageStream :: "string \<Rightarrow> ChatEvent list \<Rightarrow> Message option list" where
  "getMessageStream roomId events =
     map (\<lambda>event. p_message (e_payload event))
       (filter (\<lambda>event. e_type event = MESSAGE_SENT \<and> p_roomId (e_payload event) = roomId)
          events)"

text \<open>The events a subscription made in state \<open>cm\<close> has been delivered by state \<open>cm'\<close>.\<close>

definition delivered :: "ChatManager \<Rightarrow> ChatManager \<Rightarrow> ChatEvent list" where
  "delivered cm cm' = drop (length (eventStream cm)) (eventStream cm')"

subsection \<open>Representation invariant and membership\<close>

text \<open>
  Every room is stored under its own id (\<open>createRoom\<close> is the only place that adds a
  key, and \<open>updateRoom\<close> writes back under \<open>room.id\<close>), the keys of a \<open>users\<close> map are
  distinct, and a room has a subject exactly when it is registered. The constructor
  establishes this and every operation keeps it.
\<close>

definition invar :: "ChatManager \<Rightarrow> bool" where
  "invar cm \<longleftrightarrow>
     list_all (\<lambda>(k, room). r_id room = k \<and> distinct (map fst (r_users room))) (rooms cm) \<and>
     map fst (roomSubjects cm) = map fst (rooms cm)"

text \<open>\<open>room.users.get(userId)\<close> is defined: the user is a current member of the room.\<close>

definition isMember :: "ChatManager \<Rightarrow> string \<Rightarrow> string \<Rightarrow> bool" where
  "isMember cm roomId userId =
     (case map_of (rooms cm) roomId of
        None \<Rightarrow> False
      | Some room \<Rightarrow> map_of (r_users room) userId \<noteq> None)"

subsection \<open>Sequences of calls\<close>

datatype call =
    CreateRoom string string int
  | AddUserToRoom string User string int int
  | RemoveUserFromRoom string string string int int
  | AddMessage string string string string int int

datatype ret = RetRoom Room | RetBool bool | RetMessage "Message option"

fun step :: "ChatManager \<Rightarrow> call \<Rightarrow> ret \<times> ChatManager" where
  "step cm (CreateRoom rid nm now) =
     (case createRoom cm rid nm now of (room, cm') \<Rightarrow> (RetRoom room, cm'))"
| "step cm (AddUserToRoom roomId user uuid tm te) =
     (case addUserToRoom cm roomId user uuid tm te of (b, cm') \<Rightarrow> (RetBool b, cm'))"
| "step cm (RemoveUserFromRoom roomId userId uuid tm te) =
     (case removeUserFromRoom cm roomId userId uuid tm te of (b, cm') \<Rightarrow> (RetBool b, cm'))"
| "step cm (AddMessage roomId userId content uuid tm te) =
     (case addMessage cm roomId userId content uuid tm te of (m, cm') \<Rightarrow> (RetMessage m, cm'))"

fun run :: "ChatManager \<Rightarrow> call list \<Rightarrow> ret list \<times> ChatManager" where
  "run cm [] = ([], cm)"
| "run cm (c # cs) =
     (case step cm c of (r, cm') \<Rightarrow>
        (case run cm' cs of (rs, cm'') \<Rightarrow> (r # rs, cm'')))"

text \<open>
  The messages that the \<open>addMessage\<close> calls for room \<open>R\<close> returned, in call order: the
  messages posted to \<open>R\<close>.
\<close>

fun posted :: "string \<Rightarrow> (call \<times> ret) list \<Rightarrow> Message list" where
  "posted R [] = []"
| "posted R ((AddMessage roomId userId content uuid tm te, RetMessage (Some m)) # xs) =
     (if roomId = R then m # posted R xs else posted R xs)"
| "posted R (x # xs) = posted R xs"

subsection \<open>Every public method as one operation\<close>

text \<open>
  A call of any public method of the class: the four calls that change the state and
  the eight that only read it. \<open>perform\<close> runs the method and gives what the caller
  gets: the exception thrown, or the value returned with the state afterwards. An
  observable is returned as its pipeline over the events of the subject, the stream of
  a room as the current value of the room's subject. \<open>getRoomStream\<close> is the only
  method with a \<open>throw\<close>.
\<close>

datatype query =
    GetRoom string
  | GetAllRooms
  | GetRoomMessages string "int option"
  | GetRoomUsers string
  | GetRoomStream string
  | GetEventStream
  | GetRoomEventStream string
  | GetMessageStream string

datatype operation = Call call | Query query

datatype returned =
    Ret ret
  | RoomOrUndefined "Room option"
  | Rooms "Room list"
  | Messages "Message list"
  | Users "User list"
  | RoomStream Room
  | EventStream "ChatEvent list \<Rightarrow> ChatEvent list"
  | MessageStream "ChatEvent list \<Rightarrow> Message option list"

fun ask :: "ChatManager \<Rightarrow> query \<Rightarrow> error + returned" where
  "ask cm (GetRoom roomId) = Inr (RoomOrUndefined (getRoom cm roomId))"
| "ask cm GetAllRooms = Inr (Rooms (getAllRooms cm))"
| "ask cm (GetRoomMessages roomId limit) = Inr (Messages (getRoomMessages cm roomId limit))"
| "ask cm (GetRoomUsers roomId) = Inr (Users (getRoomUsers cm roomId))"
| "ask cm (GetRoomStream roomId) =
     (case getRoomStream cm roomId of Inl e \<Rightarrow> Inl e | Inr room \<Rightarrow> Inr (RoomStream room))"
| "ask cm GetEventStream = Inr (EventStream getEventStream)"
| "ask cm (GetRoomEventStream roomId) = Inr (EventStream (getRoomEventStream roomId))"
| "ask cm (GetMessageStream roomId) = Inr (MessageStream (getMessageStream roomId))"

fun perform :: "ChatManager \<Rightarrow> operation \<Rightarrow> error + returned \<times> ChatManager" where
  "perform cm (Call c) = (case step cm c of (r, cm') \<Rightarrow> Inr (Ret r, cm'))"
| "perform cm (Query q) = (case ask cm q of Inl e \<Rightarrow> Inl e | Inr v \<Rightarrow> Inr (v, cm))"

fun isGetRoomStream :: "operation \<Rightarrow> bool" where
  "isGetRoomStream (Query (GetRoomStream roomId)) = True"
| "isGetRoomStream operation = False"

section \<open>MessageTransform (streams/MessageStreams.ts)\<close>

text \<open>
  \<open>s.replace(/c/g, rep)\<close> for a one-character pattern \<open>c\<close> and a replacement without
  \<open>$\<close>: every occurrence of \<open>c\<close> becomes \<open>rep\<close>.
\<close>

definition replace :: "string \<Rightarrow> char \<Rightarrow> string \<Rightarrow> string" where
  "replace s c rep = concat (map (\<lambda>x. if x = c then rep else [x]) s)"

text \<open>
  The code units below \<open>0x100\<close> that \<open>String.prototype.trim\<close> strips: tab, line feed,
  vertical tab, form feed, carriage return, space and no-break space.
\<close>

definition isWhiteSpace :: "char \<Rightarrow> bool" where
  "isWhiteSpace c \<longleftrightarrow>
     c \<in> {CHR 0x09, CHR 0x0A, CHR 0x0B, CHR 0x0C, CHR 0x0D, CHR 0x20, CHR 0xA0}"

definition trim :: "string \<Rightarrow> string" where
  "trim s = rev (dropWhile isWhiteSpace (rev (dropWhile isWhiteSpace s)))"

definition processMessage :: "Message \<Rightarrow> Message" where
  "processMessage message =
     (let sanitizedContent =
            trim (replace (replace (m_content message) CHR ''<'' ''&lt;'') CHR ''>'' ''&gt;'')
      in message\<lparr>m_content := sanitizedContent\<rparr>)"

text \<open>
  The escaping as the specification words it: each character on its own, \<open><\<close> and \<open>>\<close>
  to their entities and every other character to itself.
\<close>

definition spec_escape :: "char \<Rightarrow> string" where
  "spec_escape c =
     (if c = CHR ''<'' then ''&lt;'' else if c = CHR ''>'' then ''&gt;'' else [c])"

section \<open>UserActivityTransform (streams/MessageStreams.ts)\<close>

record ActivityData =
  a_user :: User
  a_action :: string

record ActivityOut =
  o_user :: User
  o_action :: string
  o_lastActivity :: "int option"
  o_activeUsers :: nat

record UserActivityTransform =
  userActivity :: "(string \<times> int) list"

definition new_UserActivityTransform :: UserActivityTransform where
  "new_UserActivityTransform = \<lparr>userActivity = []\<rparr>"

text \<open>\<open>_transform\<close>: \<open>now\<close> is the time \<open>new Date()\<close> reads; the result is the object pushed.\<close>

definition transform ::
  "UserActivityTransform \<Rightarrow> ActivityData \<Rightarrow> int \<Rightarrow> ActivityOut \<times> UserActivityTransform" where
  "transform st data now =
     (let ua = AList.update (u_id (a_user data)) now (userActivity st);
          activityData =
            \<lparr>o_user = a_user data, o_action = a_action data,
             o_lastActivity = map_of ua (u_id (a_user data)),
             o_activeUsers = length ua\<rparr>
      in (activityData, st\<lparr>userActivity := ua\<rparr>))"

text \<open>
  The \<open>for \<dots> of\<close> loop of \<open>getActiveUsers\<close> walks the entries in insertion order and
  deletes from the map as it goes; a deletion removes only the entry being visited, so
  the entries still to visit are those of the map at the start.
\<close>

fun prune :: "(string \<times> int) list \<Rightarrow> int \<Rightarrow> (string \<times> int) list \<Rightarrow> (string \<times> int) list" where
  "prune [] fiveMinutesAgo ua = ua"
| "prune ((userId, lastActivity) # entries) fiveMinutesAgo ua =
     prune entries fiveMinutesAgo
       (if lastActivity < fiveMinutesAgo then AList.delete userId ua else ua)"

definition getActiveUsers :: "UserActivityTransform \<Rightarrow> int \<Rightarrow> nat \<times> UserActivityTransform" where
  "getActiveUsers st now =
     (let fiveMinutesAgo = now - 5 * 60 * 1000;
          ua = prune (userActivity st) fiveMinutesAgo (userActivity st)
      in (length ua, st\<lparr>userActivity := ua\<rparr>))"

text \<open>Writing a sequence of events, each with the time at which it is processed.\<close>

fun feed ::
  "UserActivityTransform \<Rightarrow> (ActivityData \<times> int) list \<Rightarrow> ActivityOut list \<times> UserActivityTransform" where
  "feed st [] = ([], st)"
| "feed st ((data, now) # evs) =
     (case transform st data now of (out, st') \<Rightarrow>
        (case feed st' evs of (outs, st'') \<Rightarrow> (out # outs, st'')))"

section \<open>Example states\<close>

definition alice :: User where
  "alice = \<lparr>u_id = ''u1'', u_username = ''alice'', u_joinedAt = 1\<rparr>"

definition bob :: User where
  "bob = \<lparr>u_id = ''u2'', u_username = ''bob'', u_joinedAt = 1\<rparr>"

text \<open>A fresh manager in which alice has joined the default room.\<close>

definition cm_joined :: ChatManager where
  "cm_joined = snd (addUserToRoom (new_ChatManager 0) ''general'' alice ''j1'' 2 3)"

text \<open>
  Then bob joins too; \<open>alice_again\<close> is another record with alice's id.
\<close>

definition cm_two_members :: ChatManager where
  "cm_two_members = snd (addUserToRoom cm_joined ''general'' bob ''j2'' 4 5)"

definition alice_again :: User where
  "alice_again = \<lparr>u_id = ''u1'', u_username = ''alice2'', u_joinedAt = 6\<rparr>"

text \<open>Then alice posts twice.\<close>

definition cm_posted :: ChatManager where
  "cm_posted =
     snd (run cm_joined
       [AddMessage ''general'' ''u1'' ''one'' ''m1'' 4 5,
        AddMessage ''general'' ''u1'' ''two'' ''m2'' 6 7])"

text \<open>
  Rooms \<open>R\<close> and \<open>Q\<close> with one member each, and three posts to \<open>R\<close> around one
  post to \<open>Q\<close>.
\<close>

definition cm_two_rooms :: ChatManager where
  "cm_two_rooms =
     snd (run (new_ChatManager 0)
       [CreateRoom ''R'' ''Room R'' 1, CreateRoom ''Q'' ''Room Q'' 2,
        AddUserToRoom ''R'' alice ''j1'' 3 4, AddUserToRoom ''Q'' bob ''j2'' 5 6])"

definition four_posts :: "call list" where
  "four_posts =
     [AddMessage ''R'' ''u1'' ''a'' ''m1'' 7 8, AddMessage ''Q'' ''u2'' ''x'' ''m2'' 9 10,
      AddMessage ''R'' ''u1'' ''b'' ''m3'' 11 12, AddMessage ''R'' ''u1'' ''c'' ''m4'' 13 14]"

definition example_message :: Message where
  "example_message =
     \<lparr>m_id = ''m1'', m_userId = ''u1'', m_username = ''alice'',
      m_content = '' <b> hi '', m_timestamp = 4, m_type = TEXT\<rparr>"

text \<open>A tracker that saw alice at time \<open>0\<close> and bob one second later.\<close>

definition two_events :: "(ActivityData \<times> int) list" where
  "two_events =
     [(\<lparr>a_user = alice, a_action = ''joined''\<rparr>, 0),
      (\<lparr>a_user = bob, a_action = ''joined''\<rparr>, 1000)]"

definition st_two_users :: UserActivityTransform where
  "st_two_users = snd (feed new_UserActivityTransform two_events)"


section \<open>The invariant\<close>

lemma invar_lookup:
  assumes "invar cm" and "map_of (rooms cm) k = Some room"
  shows "r_id room = k" and "distinct (map fst (r_users room))"
proof -
  from assms(2) have "(k, room) \<in> set (rooms cm)" by (rule map_of_SomeD)
  with assms(1) show "r_id room = k" and "distinct (map fst (r_users room))"
    by (auto simp: invar_def list_all_iff)
qed

lemma list_all_update:
  "list_all P al \<Longrightarrow> P (k, v) \<Longrightarrow> list_all P (AList.update k v al)"
  by (induction al) auto

lemma length_update_present:
  "k \<in> fst ` set al \<Longrightarrow> length (AList.update k v al) = length al"
  by (induction al) auto

lemma update_member: "(k, v) \<in> set (AList.update k v al)"
  by (induction al) auto

lemma invar_createRoom: "invar cm \<Longrightarrow> invar (snd (createRoom cm rid nm now))"
  by (simp add: invar_def createRoom_def Let_def list_all_update update_keys)

lemma invar_new: "invar (new_ChatManager now)"
  by (simp add: new_ChatManager_def createRoom_def invar_def Let_def)

lemma invar_updateRoom:
  assumes "invar cm" and "map_of (rooms cm) (r_id room) \<noteq> None"
    and "distinct (map fst (r_users room))"
  shows "invar (updateRoom cm room)"
proof -
  from assms(2) have k: "r_id room \<in> set (map fst (rooms cm))"
    by (metis map_of_eq_None_iff image_set)
  with assms(1) have "r_id room \<in> set (map fst (roomSubjects cm))"
    by (simp add: invar_def)
  then have "map_of (roomSubjects cm) (r_id room) \<noteq> None"
    by (metis map_of_eq_None_iff image_set)
  then obtain s where s: "map_of (roomSubjects cm) (r_id room) = Some s" by blast
  show ?thesis
    using assms(1,3) k s
    by (simp add: invar_def updateRoom_def list_all_update update_keys)
qed

lemma invar_emitEvent: "invar (emitEvent cm ev) = invar cm"
  by (simp add: invar_def emitEvent_def)

lemma rooms_updateRoom:
  "map_of (rooms (updateRoom cm room)) k = (if k = r_id room then Some room else map_of (rooms cm) k)"
  by (simp add: updateRoom_def update_conv')

lemma eventStream_updateRoom: "eventStream (updateRoom cm room) = eventStream cm"
  by (simp add: updateRoom_def)

lemma invar_addUserToRoom: "invar cm \<Longrightarrow> invar (snd (addUserToRoom cm roomId user uuid tm te))"
proof (cases "map_of (rooms cm) roomId")
  case None
  assume "invar cm"
  with None show ?thesis by (simp add: addUserToRoom_def)
next
  case (Some room)
  assume i: "invar cm"
  from invar_lookup[OF i Some] have r: "r_id room = roomId" "distinct (map fst (r_users room))" .
  have "invar (updateRoom cm (room\<lparr>r_users := AList.update (u_id user) user (r_users room),
                                     r_messages := ms\<rparr>))" for ms
    using i Some r by (intro invar_updateRoom) (simp_all add: distinct_update)
  with Some show ?thesis by (simp add: addUserToRoom_def Let_def invar_emitEvent)
qed

lemma invar_removeUserFromRoom:
  "invar cm \<Longrightarrow> invar (snd (removeUserFromRoom cm roomId userId uuid tm te))"
proof (cases "map_of (rooms cm) roomId")
  case None
  assume "invar cm"
  with None show ?thesis by (simp add: removeUserFromRoom_def)
next
  case (Some room)
  assume i: "invar cm"
  from invar_lookup[OF i Some] have r: "r_id room = roomId" "distinct (map fst (r_users room))" .
  have "invar (updateRoom cm (room\<lparr>r_users := AList.delete userId (r_users room),
                                     r_messages := ms\<rparr>))" for ms
    using i Some r by (intro invar_updateRoom) (simp_all add: distinct_delete)
  with Some i show ?thesis
    by (simp add: removeUserFromRoom_def Let_def invar_emitEvent split: option.splits)
qed

lemma invar_addMessage:
  "invar cm \<Longrightarrow> invar (snd (addMessage cm roomId userId content uuid tm te))"
proof (cases "map_of (rooms cm) roomId")
  case None
  assume "invar cm"
  with None show ?thesis by (simp add: addMessage_def)
next
  case (Some room)
  assume i: "invar cm"
  from invar_lookup[OF i Some] have r: "r_id room = roomId" "distinct (map fst (r_users room))" .
  have "invar (updateRoom cm (room\<lparr>r_messages := ms\<rparr>))" for ms
    using i Some r by (intro invar_updateRoom) simp_all
  with Some i show ?thesis
    by (simp add: addMessage_def Let_def invar_emitEvent split: option.splits)
qed

lemma invar_step: "invar cm \<Longrightarrow> invar (snd (step cm c))"
  by (cases c)
    (simp_all add: split_beta invar_createRoom invar_addUserToRoom invar_removeUserFromRoom
       invar_addMessage)

lemma invar_run: "invar cm \<Longrightarrow> invar (snd (run cm cs))"
proof (induction cs arbitrary: cm)
  case Nil
  then show ?case by simp
next
  case (Cons c cs)
  from Cons.IH[OF invar_step[OF Cons.prems, of c]] show ?case
    by (simp add: split_beta)
qed

text \<open>Every state reached from the constructor by calls satisfies the invariant.\<close>

lemma invar_reachable: "invar (snd (run (new_ChatManager now) cs))"
  by (intro invar_run invar_new)

lemma cm_joined_eq:
  "cm_joined =
     \<lparr>rooms = [(''general'',
         \<lparr>r_id = ''general'', r_name = ''General Chat'', r_users = [(''u1'', alice)],
          r_messages = [\<lparr>m_id = ''j1'', m_userId = ''system'', m_username = ''System'',
             m_content = ''alice joined the room'', m_timestamp = 2, m_type = USER_JOINED\<rparr>],
          r_createdAt = 0\<rparr>)],
      eventStream = [\<lparr>e_type = ROOM_JOINED,
         e_payload = \<lparr>p_roomId = ''general'', p_user = Some alice, p_message = None\<rparr>,
         e_timestamp = 3\<rparr>],
      roomSubjects = [(''general'',
         \<lparr>r_id = ''general'', r_name = ''General Chat'', r_users = [(''u1'', alice)],
          r_messages = [\<lparr>m_id = ''j1'', m_userId = ''system'', m_username = ''System'',
             m_content = ''alice joined the room'', m_timestamp = 2, m_type = USER_JOINED\<rparr>],
          r_createdAt = 0\<rparr>)]\<rparr>"
  by (simp add: cm_joined_def addUserToRoom_def new_ChatManager_def createRoom_def Let_def
        updateRoom_def emitEvent_def alice_def)

lemma invar_cm_joined: "invar cm_joined"
  unfolding cm_joined_def by (intro invar_addUserToRoom invar_new)

section \<open>createRoom\<close>

text \<open>
  Creating a room that exists does not fail and does not keep the room: where alice has
  joined \<open>general\<close>, creating \<open>general\<close> again returns a room and leaves the
  registry with no member and no message there.
\<close>

theorem createRoom_duplicate_counterexample:
  "getRoom cm_joined ''general'' \<noteq> None \<and>
   getRoomUsers cm_joined ''general'' = [alice] \<and>
   length (getRoomMessages cm_joined ''general'' None) = 1 \<and>
   fst (createRoom cm_joined ''general'' ''Again'' 9) =
     \<lparr>r_id = ''general'', r_name = ''Again'', r_users = [], r_messages = [], r_createdAt = 9\<rparr> \<and>
   getRoomUsers (snd (createRoom cm_joined ''general'' ''Again'' 9)) ''general'' = [] \<and>
   getRoomMessages (snd (createRoom cm_joined ''general'' ''Again'' 9)) ''general'' None = []"
  by (simp add: cm_joined_eq getRoom_def getRoomUsers_def getRoomMessages_def createRoom_def Let_def)

text \<open>
  C1 (amended). \<open>createRoom\<close> has no failure: whatever the registry holds, it returns
  a fresh room with the given id and name, no members and no history, and registers it
  under the id. A room that was registered under that id is replaced by the empty one,
  so its members and history are gone; every other room is untouched and no event is
  published.
\<close>

theorem createRoom_overwrites:
  "fst (createRoom cm rid nm now) =
     \<lparr>r_id = rid, r_name = nm, r_users = [], r_messages = [], r_createdAt = now\<rparr> \<and>
   getRoom (snd (createRoom cm rid nm now)) rid = Some (fst (createRoom cm rid nm now)) \<and>
   getRoomUsers (snd (createRoom cm rid nm now)) rid = [] \<and>
   getRoomMessages (snd (createRoom cm rid nm now)) rid None = [] \<and>
   (k \<noteq> rid \<longrightarrow> getRoom (snd (createRoom cm rid nm now)) k = getRoom cm k) \<and>
   eventStream (snd (createRoom cm rid nm now)) = eventStream cm"
  by (simp add: createRoom_def Let_def getRoom_def getRoomUsers_def getRoomMessages_def update_conv')

theorem createRoom_overwrites_witness:
  "getRoom cm_joined ''general'' \<noteq> None \<and>
   getRoomUsers (snd (createRoom cm_joined ''general'' ''Again'' 9)) ''general'' = [] \<and>
   getRoom (snd (createRoom cm_joined ''lobby'' ''Lobby'' 9)) ''general'' = getRoom cm_joined ''general''"
proof -
  have g: "getRoom cm_joined ''general'' \<noteq> None"
    by (simp add: cm_joined_eq getRoom_def)
  from createRoom_overwrites[of cm_joined "''general''" "''Again''" 9 "''lobby''"]
  have a: "getRoomUsers (snd (createRoom cm_joined ''general'' ''Again'' 9)) ''general'' = []"
    by (elim conjE)
  from createRoom_overwrites[of cm_joined "''lobby''" "''Lobby''" 9 "''general''"]
  have b: "getRoom (snd (createRoom cm_joined ''lobby'' ''Lobby'' 9)) ''general''
             = getRoom cm_joined ''general''"
    by simp
  from g a b show ?thesis by (intro conjI)
qed


section \<open>addMessage\<close>

text \<open>
  C2. When the room is absent or the user is not a current member, \<open>addMessage\<close>
  returns \<open>null\<close> and changes nothing, so the history keeps its length. Otherwise it
  returns a \<open>TEXT\<close> message whose content is the argument as given, the history of
  the room grows by exactly that message, and one \<open>MESSAGE_SENT\<close> event with the room
  id and the message is published.
\<close>

theorem addMessage_spec:
  assumes "invar cm"
  shows "(\<not> isMember cm roomId userId \<longrightarrow>
            addMessage cm roomId userId content uuid tm te = (None, cm) \<and>
            length (getRoomMessages (snd (addMessage cm roomId userId content uuid tm te)) roomId None)
              = length (getRoomMessages cm roomId None)) \<and>
         (isMember cm roomId userId \<longrightarrow>
            (\<exists>message cm'.
               addMessage cm roomId userId content uuid tm te = (Some message, cm') \<and>
               m_type message = TEXT \<and> m_content message = content \<and> m_userId message = userId \<and>
               getRoomMessages cm' roomId None = getRoomMessages cm roomId None @ [message] \<and>
               eventStream cm' = eventStream cm @
                 [\<lparr>e_type = MESSAGE_SENT,
                   e_payload = \<lparr>p_roomId = roomId, p_user = None, p_message = Some message\<rparr>,
                   e_timestamp = te\<rparr>]))"
proof (intro conjI impI)
  assume n: "\<not> isMember cm roomId userId"
  then show "addMessage cm roomId userId content uuid tm te = (None, cm)"
    by (auto simp: isMember_def addMessage_def split: option.splits)
  then show "length (getRoomMessages (snd (addMessage cm roomId userId content uuid tm te)) roomId None)
              = length (getRoomMessages cm roomId None)"
    by simp
next
  assume "isMember cm roomId userId"
  then obtain room user where room: "map_of (rooms cm) roomId = Some room"
    and user: "map_of (r_users room) userId = Some user"
    by (auto simp: isMember_def split: option.splits)
  from invar_lookup(1)[OF assms room] have rid: "r_id room = roomId" .
  from room user rid show "\<exists>message cm'.
               addMessage cm roomId userId content uuid tm te = (Some message, cm') \<and>
               m_type message = TEXT \<and> m_content message = content \<and> m_userId message = userId \<and>
               getRoomMessages cm' roomId None = getRoomMessages cm roomId None @ [message] \<and>
               eventStream cm' = eventStream cm @
                 [\<lparr>e_type = MESSAGE_SENT,
                   e_payload = \<lparr>p_roomId = roomId, p_user = None, p_message = Some message\<rparr>,
                   e_timestamp = te\<rparr>]"
    by (simp add: addMessage_def Let_def getRoomMessages_def emitEvent_def
          rooms_updateRoom eventStream_updateRoom)
qed

theorem addMessage_spec_witness:
  "invar cm_joined \<and> isMember cm_joined ''general'' ''u1'' \<and>
   \<not> isMember cm_joined ''general'' ''u2'' \<and> \<not> isMember cm_joined ''lobby'' ''u1'' \<and>
   addMessage cm_joined ''general'' ''u2'' ''hi'' ''m1'' 4 5 = (None, cm_joined) \<and>
   addMessage cm_joined ''lobby'' ''u1'' ''hi'' ''m1'' 4 5 = (None, cm_joined) \<and>
   (\<exists>message cm'. addMessage cm_joined ''general'' ''u1'' ''<b>hi</b>'' ''m1'' 4 5 = (Some message, cm') \<and>
      m_content message = ''<b>hi</b>'' \<and>
      length (getRoomMessages cm' ''general'' None) = 2)"
proof -
  have m: "isMember cm_joined ''general'' ''u1''" "\<not> isMember cm_joined ''general'' ''u2''"
    "\<not> isMember cm_joined ''lobby'' ''u1''"
    by (simp_all add: cm_joined_eq isMember_def)
  have l: "length (getRoomMessages cm_joined ''general'' None) = 1"
    by (simp add: cm_joined_eq getRoomMessages_def)
  from addMessage_spec[OF invar_cm_joined, of "''general''" "''u2''" "''hi''" "''m1''" 4 5]
       addMessage_spec[OF invar_cm_joined, of "''lobby''" "''u1''" "''hi''" "''m1''" 4 5]
       addMessage_spec[OF invar_cm_joined, of "''general''" "''u1''" "''<b>hi</b>''" "''m1''" 4 5]
       invar_cm_joined m l
  show ?thesis by auto
qed

section \<open>addUserToRoom\<close>

lemma addUserToRoom_present:
  assumes "invar cm" and "map_of (rooms cm) roomId = Some room"
  shows "addUserToRoom cm roomId user uuid tm te =
     (True,
      emitEvent
        (updateRoom cm
           (room\<lparr>r_users := AList.update (u_id user) user (r_users room),
                 r_messages := r_messages room @
                   [\<lparr>m_id = uuid, m_userId = ''system'', m_username = ''System'',
                     m_content = u_username user @ '' joined the room'',
                     m_timestamp = tm, m_type = USER_JOINED\<rparr>]\<rparr>))
        \<lparr>e_type = ROOM_JOINED,
         e_payload = \<lparr>p_roomId = roomId, p_user = Some user, p_message = None\<rparr>,
         e_timestamp = te\<rparr>)"
  using assms(2) by (simp add: addUserToRoom_def Let_def)

text \<open>
  C3. \<open>addUserToRoom\<close> returns \<open>false\<close> and changes nothing when the room is absent.
  For an existing room it returns \<open>true\<close>; afterwards the user is among the room's
  users, the history is the old one followed by a \<open>USER_JOINED\<close> message whose content
  is the user's name followed by \<open>joined the room\<close>, and one \<open>ROOM_JOINED\<close> event
  with the room id and the user has been published.
\<close>

theorem addUserToRoom_spec:
  assumes "invar cm"
  shows "(getRoom cm roomId = None \<longrightarrow> addUserToRoom cm roomId user uuid tm te = (False, cm)) \<and>
         (getRoom cm roomId \<noteq> None \<longrightarrow>
            (\<exists>cm' joinMessage.
               addUserToRoom cm roomId user uuid tm te = (True, cm') \<and>
               user \<in> set (getRoomUsers cm' roomId) \<and>
               getRoomMessages cm' roomId None = getRoomMessages cm roomId None @ [joinMessage] \<and>
               last (getRoomMessages cm' roomId None) = joinMessage \<and>
               m_type joinMessage = USER_JOINED \<and>
               m_content joinMessage = u_username user @ '' joined the room'' \<and>
               eventStream cm' = eventStream cm @
                 [\<lparr>e_type = ROOM_JOINED,
                   e_payload = \<lparr>p_roomId = roomId, p_user = Some user, p_message = None\<rparr>,
                   e_timestamp = te\<rparr>]))"
proof (intro conjI impI)
  assume "getRoom cm roomId = None"
  then show "addUserToRoom cm roomId user uuid tm te = (False, cm)"
    by (simp add: getRoom_def addUserToRoom_def)
next
  assume "getRoom cm roomId \<noteq> None"
  then obtain room where room: "map_of (rooms cm) roomId = Some room"
    by (auto simp: getRoom_def)
  from invar_lookup(1)[OF assms room] have rid: "r_id room = roomId" .
  have mem: "user \<in> snd ` set (AList.update (u_id user) user (r_users room))"
    using update_member[of "u_id user" user "r_users room"] by force
  show "\<exists>cm' joinMessage.
               addUserToRoom cm roomId user uuid tm te = (True, cm') \<and>
               user \<in> set (getRoomUsers cm' roomId) \<and>
               getRoomMessages cm' roomId None = getRoomMessages cm roomId None @ [joinMessage] \<and>
               last (getRoomMessages cm' roomId None) = joinMessage \<and>
               m_type joinMessage = USER_JOINED \<and>
               m_content joinMessage = u_username user @ '' joined the room'' \<and>
               eventStream cm' = eventStream cm @
                 [\<lparr>e_type = ROOM_JOINED,
                   e_payload = \<lparr>p_roomId = roomId, p_user = Some user, p_message = None\<rparr>,
                   e_timestamp = te\<rparr>]"
    unfolding addUserToRoom_present[OF assms room]
    using room rid mem
    by (simp add: getRoomUsers_def getRoomMessages_def emitEvent_def rooms_updateRoom
          eventStream_updateRoom)
qed

theorem addUserToRoom_spec_witness:
  "invar (new_ChatManager 0) \<and> getRoom (new_ChatManager 0) ''lobby'' = None \<and>
   getRoom (new_ChatManager 0) ''general'' \<noteq> None \<and>
   addUserToRoom (new_ChatManager 0) ''lobby'' alice ''j1'' 2 3 = (False, new_ChatManager 0) \<and>
   (\<exists>cm'. addUserToRoom (new_ChatManager 0) ''general'' alice ''j1'' 2 3 = (True, cm') \<and>
      alice \<in> set (getRoomUsers cm' ''general'') \<and>
      m_content (last (getRoomMessages cm' ''general'' None)) = ''alice joined the room'')"
proof -
  have g: "getRoom (new_ChatManager 0) ''lobby'' = None"
    "getRoom (new_ChatManager 0) ''general'' \<noteq> None"
    by (simp_all add: new_ChatManager_def createRoom_def getRoom_def Let_def)
  have n: "u_username alice = ''alice''" by (simp add: alice_def)
  from addUserToRoom_spec[OF invar_new, of 0 "''lobby''" alice "''j1''" 2 3]
       addUserToRoom_spec[OF invar_new, of 0 "''general''" alice "''j1''" 2 3]
       g n invar_new[of 0]
  show ?thesis by auto
qed

lemma map_entries_absent:
  "k \<notin> fst ` set al \<Longrightarrow> map (\<lambda>(k', u). (k', if k' = k then v else u)) al = al"
  by (induction al) auto

lemma update_present_map:
  "distinct (map fst al) \<Longrightarrow> k \<in> fst ` set al \<Longrightarrow>
   AList.update k v al = map (\<lambda>(k', u). (k', if k' = k then v else u)) al"
proof (induction al)
  case Nil
  then show ?case by simp
next
  case (Cons p al)
  show ?case
  proof (cases "fst p = k")
    case True
    with Cons.prems(1) have "k \<notin> fst ` set al" by auto
    then have "map (\<lambda>(k', u). (k', if k' = k then v else u)) al = al"
      by (rule map_entries_absent)
    with True show ?thesis by (cases p) simp
  next
    case False
    with Cons.prems have "distinct (map fst al)" and "k \<in> fst ` set al" by auto
    then have "AList.update k v al = map (\<lambda>(k', u). (k', if k' = k then v else u)) al"
      by (rule Cons.IH)
    with False show ?thesis by (cases p) simp
  qed
qed

text \<open>
  C10. Joining again with the id of a current member returns \<open>true\<close> and keeps the number
  of members: the record stored under that id is now the user given in this call, every
  other member keeps its record and its place, and the member list is the old one with
  that one record replaced. The call still appends one more join message and publishes
  one more \<open>ROOM_JOINED\<close> event.
\<close>

theorem addUserToRoom_rejoin:
  assumes "invar cm" and "isMember cm roomId (u_id user)"
  shows "\<exists>cm' joinMessage room room'.
           addUserToRoom cm roomId user uuid tm te = (True, cm') \<and>
           length (getRoomUsers cm' roomId) = length (getRoomUsers cm roomId) \<and>
           user \<in> set (getRoomUsers cm' roomId) \<and>
           isMember cm' roomId (u_id user) \<and>
           getRoom cm roomId = Some room \<and> getRoom cm' roomId = Some room' \<and>
           map_of (r_users room') (u_id user) = Some user \<and>
           (\<forall>k. k \<noteq> u_id user \<longrightarrow> map_of (r_users room') k = map_of (r_users room) k) \<and>
           r_users room' =
             map (\<lambda>(k, u). (k, if k = u_id user then user else u)) (r_users room) \<and>
           getRoomUsers cm' roomId =
             map (\<lambda>(k, u). if k = u_id user then user else u) (r_users room) \<and>
           getRoomMessages cm' roomId None = getRoomMessages cm roomId None @ [joinMessage] \<and>
           m_type joinMessage = USER_JOINED \<and>
           m_content joinMessage = u_username user @ '' joined the room'' \<and>
           eventStream cm' = eventStream cm @
             [\<lparr>e_type = ROOM_JOINED,
               e_payload = \<lparr>p_roomId = roomId, p_user = Some user, p_message = None\<rparr>,
               e_timestamp = te\<rparr>]"
proof -
  from assms(2) obtain room where room: "map_of (rooms cm) roomId = Some room"
    and old: "map_of (r_users room) (u_id user) \<noteq> None"
    by (auto simp: isMember_def split: option.splits)
  from invar_lookup[OF assms(1) room] have rid: "r_id room = roomId"
    and dist: "distinct (map fst (r_users room))" .
  from old have key: "u_id user \<in> fst ` set (r_users room)"
    by (simp add: map_of_eq_None_iff)
  have mem: "user \<in> snd ` set (AList.update (u_id user) user (r_users room))"
    using update_member[of "u_id user" user "r_users room"] by force
  note upd = update_present_map[OF dist key, of user]
  have users: "map snd (AList.update (u_id user) user (r_users room))
                 = map (\<lambda>(k, u). if k = u_id user then user else u) (r_users room)"
    unfolding upd by (simp add: split_beta)
  have others: "\<forall>k. k \<noteq> u_id user \<longrightarrow>
      map_of (AList.update (u_id user) user (r_users room)) k = map_of (r_users room) k"
    by (simp add: update_conv')
  have self: "map_of (AList.update (u_id user) user (r_users room)) (u_id user) = Some user"
    by (simp add: update_conv')
  show ?thesis
    unfolding addUserToRoom_present[OF assms(1) room]
    using room rid mem length_update_present[OF key, of user] users others self upd[symmetric]
    by (simp add: getRoom_def getRoomUsers_def getRoomMessages_def emitEvent_def
          rooms_updateRoom eventStream_updateRoom isMember_def)
qed

lemma cm_two_members_room:
  "getRoom cm_two_members ''general'' =
     Some \<lparr>r_id = ''general'', r_name = ''General Chat'',
           r_users = [(''u1'', alice), (''u2'', bob)],
           r_messages =
             [\<lparr>m_id = ''j1'', m_userId = ''system'', m_username = ''System'',
               m_content = ''alice joined the room'', m_timestamp = 2, m_type = USER_JOINED\<rparr>,
              \<lparr>m_id = ''j2'', m_userId = ''system'', m_username = ''System'',
               m_content = ''bob joined the room'', m_timestamp = 4, m_type = USER_JOINED\<rparr>],
           r_createdAt = 0\<rparr>"
  by (simp add: cm_two_members_def cm_joined_eq addUserToRoom_def updateRoom_def emitEvent_def
        getRoom_def Let_def alice_def bob_def)

lemma invar_cm_two_members: "invar cm_two_members"
  unfolding cm_two_members_def by (intro invar_addUserToRoom invar_cm_joined)

theorem addUserToRoom_rejoin_witness:
  "invar cm_two_members \<and> isMember cm_two_members ''general'' (u_id alice_again) \<and>
   getRoomUsers cm_two_members ''general'' = [alice, bob] \<and>
   length (getRoomMessages cm_two_members ''general'' None) = 2 \<and>
   (\<exists>cm'. addUserToRoom cm_two_members ''general'' alice_again ''j3'' 6 7 = (True, cm') \<and>
      getRoomUsers cm' ''general'' = [alice_again, bob] \<and>
      length (getRoomMessages cm' ''general'' None) = 3 \<and>
      length (eventStream cm') = Suc (length (eventStream cm_two_members)))"
proof -
  note r = cm_two_members_room[unfolded getRoom_def]
  have m: "isMember cm_two_members ''general'' (u_id alice_again)"
    by (simp add: isMember_def r alice_again_def)
  have u: "getRoomUsers cm_two_members ''general'' = [alice, bob]"
    by (simp add: getRoomUsers_def r)
  have l: "length (getRoomMessages cm_two_members ''general'' None) = 2"
    by (simp add: getRoomMessages_def r)
  from addUserToRoom_rejoin[OF invar_cm_two_members m, of "''j3''" 6 7]
  obtain cm' joinMessage room where
    a: "addUserToRoom cm_two_members ''general'' alice_again ''j3'' 6 7 = (True, cm')" and
    b: "getRoom cm_two_members ''general'' = Some room" and
    c: "getRoomUsers cm' ''general'' =
          map (\<lambda>(k, u). if k = u_id alice_again then alice_again else u) (r_users room)" and
    d: "getRoomMessages cm' ''general'' None
          = getRoomMessages cm_two_members ''general'' None @ [joinMessage]" and
    e: "eventStream cm' = eventStream cm_two_members @
          [\<lparr>e_type = ROOM_JOINED,
            e_payload = \<lparr>p_roomId = ''general'', p_user = Some alice_again, p_message = None\<rparr>,
            e_timestamp = 7\<rparr>]"
    by blast
  from b have room: "r_users room = [(''u1'', alice), (''u2'', bob)]"
    by (auto simp: cm_two_members_room)
  have c': "getRoomUsers cm' ''general'' = [alice_again, bob]"
    unfolding c room by (simp add: alice_again_def)
  have d': "length (getRoomMessages cm' ''general'' None) = 3"
    unfolding d using l by simp
  have e': "length (eventStream cm') = Suc (length (eventStream cm_two_members))"
    unfolding e by simp
  from a c' d' e' have "\<exists>cm'. addUserToRoom cm_two_members ''general'' alice_again ''j3'' 6 7 = (True, cm') \<and>
      getRoomUsers cm' ''general'' = [alice_again, bob] \<and>
      length (getRoomMessages cm' ''general'' None) = 3 \<and>
      length (eventStream cm') = Suc (length (eventStream cm_two_members))"
    by blast
  with invar_cm_two_members m u l show ?thesis by (intro conjI)
qed

section \<open>getRoomMessages\<close>

lemma slice_tail:
  assumes "0 < k"
  shows "slice xs (- k) = drop (length xs - min (nat k) (length xs)) xs"
proof -
  have "nat (max (int (length xs) + - k) 0) = length xs - min (nat k) (length xs)"
    using assms by (simp add: max_def min_def) linarith
  with assms show ?thesis by (simp add: slice_def Let_def)
qed

text \<open>
  C4 (amended). An absent room has the empty history, with or without a limit. Without
  a limit \<open>getRoomMessages\<close> returns the whole history. With a limit \<open>k \<ge> 1\<close> it
  returns the last \<open>min k L\<close> messages of a history of length \<open>L\<close>, in their order: the
  result is a suffix of the history of that length.
\<close>

theorem getRoomMessages_spec:
  "(getRoom cm roomId = None \<longrightarrow> getRoomMessages cm roomId limit = []) \<and>
   getRoomMessages cm roomId None =
     (case getRoom cm roomId of None \<Rightarrow> [] | Some room \<Rightarrow> r_messages room) \<and>
   (0 < k \<longrightarrow>
      length (getRoomMessages cm roomId (Some k))
        = min (nat k) (length (getRoomMessages cm roomId None)) \<and>
      (\<exists>older. getRoomMessages cm roomId None = older @ getRoomMessages cm roomId (Some k)) \<and>
      getRoomMessages cm roomId (Some k) =
        drop (length (getRoomMessages cm roomId None)
                - min (nat k) (length (getRoomMessages cm roomId None)))
          (getRoomMessages cm roomId None))"
proof (intro conjI impI)
  show "getRoom cm roomId = None \<Longrightarrow> getRoomMessages cm roomId limit = []"
    by (simp add: getRoom_def getRoomMessages_def)
  show "getRoomMessages cm roomId None =
          (case getRoom cm roomId of None \<Rightarrow> [] | Some room \<Rightarrow> r_messages room)"
    by (simp add: getRoom_def getRoomMessages_def split: option.splits)
next
  assume k: "0 < k"
  let ?h = "getRoomMessages cm roomId None"
  let ?n = "min (nat k) (length ?h)"
  show d: "getRoomMessages cm roomId (Some k) = drop (length ?h - ?n) ?h"
    using k by (simp add: getRoomMessages_def slice_tail Let_def split: option.splits)
  show "length (getRoomMessages cm roomId (Some k)) = ?n"
    unfolding d by simp
  have "?h = take (length ?h - ?n) ?h @ drop (length ?h - ?n) ?h" by simp
  then show "\<exists>older. ?h = older @ getRoomMessages cm roomId (Some k)"
    unfolding d by blast
qed

lemma history_cm_posted:
  "getRoomMessages cm_posted ''general'' None =
     [\<lparr>m_id = ''j1'', m_userId = ''system'', m_username = ''System'',
       m_content = ''alice joined the room'', m_timestamp = 2, m_type = USER_JOINED\<rparr>,
      \<lparr>m_id = ''m1'', m_userId = ''u1'', m_username = ''alice'',
       m_content = ''one'', m_timestamp = 4, m_type = TEXT\<rparr>,
      \<lparr>m_id = ''m2'', m_userId = ''u1'', m_username = ''alice'',
       m_content = ''two'', m_timestamp = 6, m_type = TEXT\<rparr>]"
  by (simp add: cm_posted_def cm_joined_eq addMessage_def updateRoom_def emitEvent_def
        getRoomMessages_def Let_def alice_def)

theorem getRoomMessages_spec_witness:
  "getRoom cm_posted ''lobby'' = None \<and> getRoomMessages cm_posted ''lobby'' (Some 2) = [] \<and>
   (0::int) < 2 \<and>
   map m_content (getRoomMessages cm_posted ''general'' (Some 2)) = [''one'', ''two''] \<and>
   (0::int) < 7 \<and>
   length (getRoomMessages cm_posted ''general'' (Some 7)) = 3"
proof -
  have g: "getRoom cm_posted ''lobby'' = None"
    by (simp add: cm_posted_def cm_joined_eq addMessage_def updateRoom_def emitEvent_def
          getRoom_def Let_def alice_def)
  from getRoomMessages_spec[of cm_posted "''lobby''" "Some 2" 2] g
  have a: "getRoomMessages cm_posted ''lobby'' (Some 2) = []" by simp
  from getRoomMessages_spec[of cm_posted "''general''" None 2]
  have "getRoomMessages cm_posted ''general'' (Some 2) =
          drop (length (getRoomMessages cm_posted ''general'' None)
                  - min (nat 2) (length (getRoomMessages cm_posted ''general'' None)))
            (getRoomMessages cm_posted ''general'' None)"
    by simp
  then have b: "map m_content (getRoomMessages cm_posted ''general'' (Some 2)) = [''one'', ''two'']"
    by (simp add: history_cm_posted)
  from getRoomMessages_spec[of cm_posted "''general''" None 7]
  have "length (getRoomMessages cm_posted ''general'' (Some 7))
          = min (nat 7) (length (getRoomMessages cm_posted ''general'' None))"
    by simp
  then have c: "length (getRoomMessages cm_posted ''general'' (Some 7)) = 3"
    by (simp add: history_cm_posted)
  from g a b c show ?thesis by simp
qed

text \<open>
  The limit \<open>0\<close> does not give the last \<open>0\<close> messages: the test on \<open>limit\<close> takes
  it for a missing limit, and all three messages come back instead of none.
\<close>

theorem getRoomMessages_zero_counterexample:
  "length (getRoomMessages cm_posted ''general'' None) = 3 \<and>
   length (getRoomMessages cm_posted ''general'' (Some 0)) = 3 \<and>
   length (getRoomMessages cm_posted ''general'' (Some 0))
     \<noteq> min 0 (length (getRoomMessages cm_posted ''general'' None))"
proof -
  have "getRoomMessages cm_posted ''general'' (Some 0) = getRoomMessages cm_posted ''general'' None"
    by (simp add: getRoomMessages_def split: option.splits)
  then show ?thesis by (simp add: history_cm_posted)
qed

section \<open>Absent rooms and users\<close>

lemma roomSubjects_absent:
  assumes "invar cm" and "map_of (rooms cm) roomId = None"
  shows "map_of (roomSubjects cm) roomId = None"
proof -
  from assms(2) have "roomId \<notin> set (map fst (rooms cm))"
    by (simp add: map_of_eq_None_iff)
  with assms(1) have "roomId \<notin> set (map fst (roomSubjects cm))"
    by (simp add: invar_def)
  then show ?thesis by (simp add: map_of_eq_None_iff)
qed

lemma roomSubjects_present:
  assumes "invar cm" and "map_of (rooms cm) roomId \<noteq> None"
  shows "map_of (roomSubjects cm) roomId \<noteq> None"
proof -
  from assms(2) have "roomId \<in> set (map fst (rooms cm))"
    by (simp add: map_of_eq_None_iff)
  with assms(1) have "roomId \<in> set (map fst (roomSubjects cm))"
    by (simp add: invar_def)
  then show ?thesis by (simp add: map_of_eq_None_iff)
qed

lemma perform_returns:
  "\<not> isGetRoomStream operation \<Longrightarrow> \<exists>v cm'. perform cm operation = Inr (v, cm')"
proof (cases operation)
  case (Call c)
  then show ?thesis by (simp add: split_beta)
next
  case (Query q)
  assume "\<not> isGetRoomStream operation"
  with Query show ?thesis by (cases q) simp_all
qed

text \<open>
  C5 (amended). Every operation of the \<open>ChatManager\<close> other than \<open>getRoomStream\<close>
  returns a value on every input and never throws, whether or not the room or the user
  it names exists. For a room id that is not registered, \<open>getRoom\<close> returns
  \<open>undefined\<close>, \<open>addUserToRoom\<close> and \<open>removeUserFromRoom\<close> return \<open>false\<close>,
  \<open>addMessage\<close> returns \<open>null\<close>, \<open>getRoomMessages\<close> and \<open>getRoomUsers\<close> return the
  empty array, \<open>getRoomEventStream\<close> and \<open>getMessageStream\<close> return their stream, and
  none of them changes the state; the same holds for \<open>removeUserFromRoom\<close> and
  \<open>addMessage\<close> with a user who is not a member. \<open>getRoomStream\<close> is the one
  exception: for a room id that is not registered it throws
  \<open>Error("Room <id> not found")\<close>, and for a registered one it returns.
\<close>

theorem absent_room_spec:
  assumes "invar cm"
  shows "(\<not> isGetRoomStream operation \<longrightarrow> (\<exists>v cm'. perform cm operation = Inr (v, cm'))) \<and>
         (getRoom cm roomId = None \<longrightarrow>
            addUserToRoom cm roomId user uuid tm te = (False, cm) \<and>
            removeUserFromRoom cm roomId userId uuid tm te = (False, cm) \<and>
            addMessage cm roomId userId content uuid tm te = (None, cm) \<and>
            getRoomMessages cm roomId limit = [] \<and>
            getRoomUsers cm roomId = [] \<and>
            perform cm (Query (GetRoom roomId)) = Inr (RoomOrUndefined None, cm) \<and>
            perform cm (Query (GetRoomEventStream roomId))
              = Inr (EventStream (getRoomEventStream roomId), cm) \<and>
            perform cm (Query (GetMessageStream roomId))
              = Inr (MessageStream (getMessageStream roomId), cm) \<and>
            getRoomStream cm roomId = Inl (Error (''Room '' @ roomId @ '' not found'')) \<and>
            perform cm (Query (GetRoomStream roomId))
              = Inl (Error (''Room '' @ roomId @ '' not found''))) \<and>
         (\<not> isMember cm roomId userId \<longrightarrow>
            removeUserFromRoom cm roomId userId uuid tm te = (False, cm) \<and>
            addMessage cm roomId userId content uuid tm te = (None, cm)) \<and>
         (getRoom cm roomId \<noteq> None \<longrightarrow>
            (\<exists>room. getRoomStream cm roomId = Inr room \<and>
               perform cm (Query (GetRoomStream roomId)) = Inr (RoomStream room, cm)))"
proof (intro conjI impI)
  assume "\<not> isGetRoomStream operation"
  then show "\<exists>v cm'. perform cm operation = Inr (v, cm')" by (rule perform_returns)
next
  assume a: "getRoom cm roomId = None"
  then show "addUserToRoom cm roomId user uuid tm te = (False, cm)"
    and "removeUserFromRoom cm roomId userId uuid tm te = (False, cm)"
    and "addMessage cm roomId userId content uuid tm te = (None, cm)"
    and "getRoomMessages cm roomId limit = []"
    and "getRoomUsers cm roomId = []"
    by (simp_all add: getRoom_def addUserToRoom_def removeUserFromRoom_def addMessage_def
          getRoomMessages_def getRoomUsers_def)
  from a show "perform cm (Query (GetRoom roomId)) = Inr (RoomOrUndefined None, cm)"
    by simp
  show "perform cm (Query (GetRoomEventStream roomId))
          = Inr (EventStream (getRoomEventStream roomId), cm)"
    by simp
  show "perform cm (Query (GetMessageStream roomId))
          = Inr (MessageStream (getMessageStream roomId), cm)"
    by simp
  from a roomSubjects_absent[OF assms, of roomId]
  show t: "getRoomStream cm roomId = Inl (Error (''Room '' @ roomId @ '' not found''))"
    by (simp add: getRoom_def getRoomStream_def)
  then show "perform cm (Query (GetRoomStream roomId))
          = Inl (Error (''Room '' @ roomId @ '' not found''))"
    by simp
next
  assume "\<not> isMember cm roomId userId"
  then show "removeUserFromRoom cm roomId userId uuid tm te = (False, cm)"
    and "addMessage cm roomId userId content uuid tm te = (None, cm)"
    by (auto simp: isMember_def removeUserFromRoom_def addMessage_def split: option.splits)
next
  assume "getRoom cm roomId \<noteq> None"
  then have "map_of (rooms cm) roomId \<noteq> None" by (simp add: getRoom_def)
  from roomSubjects_present[OF assms this]
  obtain room where "map_of (roomSubjects cm) roomId = Some room" by blast
  then have "getRoomStream cm roomId = Inr room" by (simp add: getRoomStream_def)
  then show "\<exists>room. getRoomStream cm roomId = Inr room \<and>
               perform cm (Query (GetRoomStream roomId)) = Inr (RoomStream room, cm)"
    by simp
qed

theorem absent_room_spec_witness:
  "invar cm_joined \<and> getRoom cm_joined ''lobby'' = None \<and>
   \<not> isMember cm_joined ''general'' ''u2'' \<and>
   addUserToRoom cm_joined ''lobby'' bob ''j2'' 4 5 = (False, cm_joined) \<and>
   removeUserFromRoom cm_joined ''general'' ''u2'' ''l1'' 4 5 = (False, cm_joined) \<and>
   addMessage cm_joined ''general'' ''u2'' ''hi'' ''l1'' 4 5 = (None, cm_joined) \<and>
   getRoomStream cm_joined ''lobby'' = Inl (Error ''Room lobby not found'') \<and>
   perform cm_joined (Query (GetRoom ''lobby'')) = Inr (RoomOrUndefined None, cm_joined) \<and>
   perform cm_joined (Query (GetRoomStream ''lobby'')) = Inl (Error ''Room lobby not found'') \<and>
   (\<exists>v cm'. perform cm_joined (Query (GetMessageStream ''lobby'')) = Inr (v, cm')) \<and>
   (\<exists>v cm'. perform cm_joined (Call (AddMessage ''lobby'' ''u2'' ''hi'' ''l1'' 4 5)) = Inr (v, cm')) \<and>
   getRoom cm_joined ''general'' \<noteq> None \<and>
   (\<exists>room. perform cm_joined (Query (GetRoomStream ''general'')) = Inr (RoomStream room, cm_joined))"
proof -
  have g: "getRoom cm_joined ''lobby'' = None" "\<not> isMember cm_joined ''general'' ''u2''"
    "getRoom cm_joined ''general'' \<noteq> None"
    by (simp_all add: cm_joined_eq getRoom_def isMember_def)
  have o: "\<not> isGetRoomStream (Query (GetMessageStream ''lobby''))"
    "\<not> isGetRoomStream (Call (AddMessage ''lobby'' ''u2'' ''hi'' ''l1'' 4 5))"
    by simp_all
  from absent_room_spec[OF invar_cm_joined,
         of "Query (GetMessageStream ''lobby'')" "''lobby''" bob "''j2''" 4 5 "''u2''" "''hi''" None]
       g o
  have a: "addUserToRoom cm_joined ''lobby'' bob ''j2'' 4 5 = (False, cm_joined)"
    "getRoomStream cm_joined ''lobby'' = Inl (Error ''Room lobby not found'')"
    "perform cm_joined (Query (GetRoom ''lobby'')) = Inr (RoomOrUndefined None, cm_joined)"
    "perform cm_joined (Query (GetRoomStream ''lobby'')) = Inl (Error ''Room lobby not found'')"
    "\<exists>v cm'. perform cm_joined (Query (GetMessageStream ''lobby'')) = Inr (v, cm')"
    by simp_all
  note t = absent_room_spec[OF invar_cm_joined,
         of "Call (AddMessage ''lobby'' ''u2'' ''hi'' ''l1'' 4 5)" "''general''" bob "''l1''" 4 5
            "''u2''" "''hi''" None]
  from t g o
  have b: "removeUserFromRoom cm_joined ''general'' ''u2'' ''l1'' 4 5 = (False, cm_joined)"
    "addMessage cm_joined ''general'' ''u2'' ''hi'' ''l1'' 4 5 = (None, cm_joined)"
    "\<exists>v cm'. perform cm_joined (Call (AddMessage ''lobby'' ''u2'' ''hi'' ''l1'' 4 5)) = Inr (v, cm')"
    by (simp_all del: perform.simps)
  from t g(3)
  have c: "\<exists>room. perform cm_joined (Query (GetRoomStream ''general'')) = Inr (RoomStream room, cm_joined)"
    by blast
  from invar_cm_joined g a b c show ?thesis by (intro conjI)
qed

text \<open>
  Not every operation returns a value for an absent room: on a fresh manager the id
  \<open>non-existent\<close> names no room, and \<open>getRoomStream\<close> throws.
\<close>

theorem getRoomStream_throws_counterexample:
  "getRoom (new_ChatManager 0) ''non-existent'' = None \<and>
   getRoomStream (new_ChatManager 0) ''non-existent'' = Inl (Error ''Room non-existent not found'')"
  by (simp add: new_ChatManager_def createRoom_def getRoom_def getRoomStream_def Let_def)


section \<open>The message stream of a room\<close>

lemma getMessageStream_append:
  "getMessageStream R (xs @ ys) = getMessageStream R xs @ getMessageStream R ys"
  by (simp add: getMessageStream_def)

lemma posted_Cons: "posted R (x # xs) = posted R [x] @ posted R xs"
  by (cases "(R, x # xs)" rule: posted.cases) auto

lemma step_events:
  "\<exists>evs. eventStream (snd (step cm c)) = eventStream cm @ evs \<and>
         getMessageStream R evs = map Some (posted R [(c, fst (step cm c))])"
proof (cases c)
  case (CreateRoom rid nm now)
  then show ?thesis by (simp add: createRoom_def Let_def getMessageStream_def)
next
  case (AddUserToRoom roomId user uuid tm te)
  then show ?thesis
    by (simp add: addUserToRoom_def Let_def emitEvent_def eventStream_updateRoom
          getMessageStream_def split: option.splits)
next
  case (RemoveUserFromRoom roomId userId uuid tm te)
  then show ?thesis
    by (simp add: removeUserFromRoom_def Let_def emitEvent_def eventStream_updateRoom
          getMessageStream_def split: option.splits)
next
  case (AddMessage roomId userId content uuid tm te)
  then show ?thesis
    by (simp add: addMessage_def Let_def emitEvent_def eventStream_updateRoom
          getMessageStream_def split: option.splits)
qed

lemma run_events:
  "\<exists>evs. eventStream (snd (run cm cs)) = eventStream cm @ evs \<and>
         getMessageStream R evs = map Some (posted R (zip cs (fst (run cm cs))))"
proof (induction cs arbitrary: cm)
  case Nil
  then show ?case by (simp add: getMessageStream_def)
next
  case (Cons c cs)
  obtain e1 where e1: "eventStream (snd (step cm c)) = eventStream cm @ e1"
    "getMessageStream R e1 = map Some (posted R [(c, fst (step cm c))])"
    using step_events[of cm c R] by blast
  obtain e2 where e2: "eventStream (snd (run (snd (step cm c)) cs)) = eventStream (snd (step cm c)) @ e2"
    "getMessageStream R e2 = map Some (posted R (zip cs (fst (run (snd (step cm c)) cs))))"
    using Cons.IH[of "snd (step cm c)"] by blast
  have "eventStream (snd (run cm (c # cs))) = eventStream cm @ (e1 @ e2)"
    using e1(1) e2(1) by (simp add: split_beta)
  moreover have "getMessageStream R (e1 @ e2) =
      map Some (posted R (zip (c # cs) (fst (run cm (c # cs)))))"
    using e1(2) e2(2)
    by (simp add: split_beta getMessageStream_append
          posted_Cons[of R "(c, fst (step cm c))" "zip cs (fst (run (snd (step cm c)) cs))"])
  ultimately show ?case by blast
qed

text \<open>
  C6. A subscriber to the message stream of room \<open>R\<close> that subscribes in any state and
  then sees any sequence of calls (posts to \<open>R\<close> and to other rooms, joins, leaves and
  room creations, successful or not) receives exactly the messages that the posts to
  \<open>R\<close> returned, in the order of the posts, and nothing else.
\<close>

theorem getMessageStream_spec:
  "getMessageStream R (delivered cm (snd (run cm cs)))
     = map Some (posted R (zip cs (fst (run cm cs))))"
proof -
  obtain evs where "eventStream (snd (run cm cs)) = eventStream cm @ evs"
    and "getMessageStream R evs = map Some (posted R (zip cs (fst (run cm cs))))"
    using run_events[of cm cs R] by blast
  then show ?thesis by (simp add: delivered_def)
qed


lemma rets_four_posts:
  "fst (run cm_two_rooms four_posts) =
     [RetMessage (Some \<lparr>m_id = ''m1'', m_userId = ''u1'', m_username = ''alice'',
        m_content = ''a'', m_timestamp = 7, m_type = TEXT\<rparr>),
      RetMessage (Some \<lparr>m_id = ''m2'', m_userId = ''u2'', m_username = ''bob'',
        m_content = ''x'', m_timestamp = 9, m_type = TEXT\<rparr>),
      RetMessage (Some \<lparr>m_id = ''m3'', m_userId = ''u1'', m_username = ''alice'',
        m_content = ''b'', m_timestamp = 11, m_type = TEXT\<rparr>),
      RetMessage (Some \<lparr>m_id = ''m4'', m_userId = ''u1'', m_username = ''alice'',
        m_content = ''c'', m_timestamp = 13, m_type = TEXT\<rparr>)]"
  by (simp add: cm_two_rooms_def four_posts_def new_ChatManager_def createRoom_def
        addUserToRoom_def addMessage_def updateRoom_def emitEvent_def Let_def alice_def bob_def)

theorem getMessageStream_spec_witness:
  "map (map_option m_content)
     (getMessageStream ''R'' (delivered cm_two_rooms (snd (run cm_two_rooms four_posts))))
     = [Some ''a'', Some ''b'', Some ''c'']"
  using getMessageStream_spec[of "''R''" cm_two_rooms four_posts]
  by (simp add: rets_four_posts) (simp add: four_posts_def)

section \<open>The content sanitizer\<close>

lemma replace_Cons: "replace (x # s) c rep = (if x = c then rep else [x]) @ replace s c rep"
  by (simp add: replace_def)

lemma replace_append: "replace (s @ t) c rep = replace s c rep @ replace t c rep"
  by (simp add: replace_def)

lemma replace_absent: "c \<notin> set s \<Longrightarrow> replace s c rep = s"
  by (induction s) (auto simp: replace_def)

lemma replace_twice_escape:
  "replace (replace s CHR ''<'' ''&lt;'') CHR ''>'' ''&gt;'' = concat (map spec_escape s)"
proof (induction s)
  case Nil
  show ?case by (simp add: replace_def)
next
  case (Cons x s)
  have "replace (replace (x # s) CHR ''<'' ''&lt;'') CHR ''>'' ''&gt;''
          = replace (if x = CHR ''<'' then ''&lt;'' else [x]) CHR ''>'' ''&gt;''
              @ replace (replace s CHR ''<'' ''&lt;'') CHR ''>'' ''&gt;''"
    by (simp only: replace_Cons replace_append)
  also have "replace (if x = CHR ''<'' then ''&lt;'' else [x]) CHR ''>'' ''&gt;'' = spec_escape x"
    by (simp add: replace_def spec_escape_def)
  finally show ?case using Cons.IH by simp
qed

lemma escape_no_angle:
  "CHR ''<'' \<notin> set (concat (map spec_escape s))" "CHR ''>'' \<notin> set (concat (map spec_escape s))"
  by (auto simp: spec_escape_def split: if_splits)

lemma rev_dropWhile_takeWhile:
  "rev (dropWhile P (rev xs)) @ rev (takeWhile P (rev xs)) = xs"
proof -
  have "rev (takeWhile P (rev xs) @ dropWhile P (rev xs)) = xs"
    by (simp only: takeWhile_dropWhile_id rev_rev_ident)
  then show ?thesis by (simp only: rev_append)
qed

lemma trim_suffix:
  "dropWhile isWhiteSpace s
     = trim s @ rev (takeWhile isWhiteSpace (rev (dropWhile isWhiteSpace s)))"
  unfolding trim_def by (rule rev_dropWhile_takeWhile[symmetric])

lemma trim_decompose:
  "s = takeWhile isWhiteSpace s @ trim s
         @ rev (takeWhile isWhiteSpace (rev (dropWhile isWhiteSpace s)))"
proof -
  have "s = takeWhile isWhiteSpace s @ dropWhile isWhiteSpace s" by simp
  also note trim_suffix[of s]
  finally show ?thesis .
qed

lemma trim_ends:
  assumes "trim s \<noteq> []"
  shows "\<not> isWhiteSpace (hd (trim s))" and "\<not> isWhiteSpace (last (trim s))"
proof -
  let ?t = "dropWhile isWhiteSpace s"
  let ?r = "dropWhile isWhiteSpace (rev ?t)"
  from assms have r: "?r \<noteq> []" by (simp add: trim_def)
  then have "\<not> isWhiteSpace (hd ?r)" by (rule hd_dropWhile)
  with r show "\<not> isWhiteSpace (last (trim s))"
    by (simp add: trim_def last_rev)
  have t: "?t = trim s @ rev (takeWhile isWhiteSpace (rev ?t))"
    by (rule trim_suffix)
  with assms have "?t \<noteq> []" by (metis append_is_Nil_conv)
  then have "\<not> isWhiteSpace (hd ?t)" by (rule hd_dropWhile)
  moreover from t assms have "hd ?t = hd (trim s)" by (metis hd_append2)
  ultimately show "\<not> isWhiteSpace (hd (trim s))" by simp
qed

lemma trim_fixed:
  assumes "s = [] \<or> (\<not> isWhiteSpace (hd s) \<and> \<not> isWhiteSpace (last s))"
  shows "trim s = s"
proof (cases "s = []")
  case True
  then show ?thesis by (simp add: trim_def)
next
  case False
  with assms have h: "\<not> isWhiteSpace (hd s)" and l: "\<not> isWhiteSpace (last s)" by simp_all
  from h have "dropWhile isWhiteSpace s = s" by (simp add: dropWhile_eq_self_iff)
  moreover from False l have "dropWhile isWhiteSpace (rev s) = rev s"
    by (simp add: dropWhile_eq_self_iff hd_rev)
  ultimately show ?thesis by (simp add: trim_def)
qed

lemma trim_idem: "trim (trim s) = trim s"
  using trim_ends[of s] by (intro trim_fixed) blast

lemma set_trim: "set (trim s) \<subseteq> set s"
proof -
  have "set (trim s) \<subseteq> set (takeWhile isWhiteSpace s @ trim s
         @ rev (takeWhile isWhiteSpace (rev (dropWhile isWhiteSpace s))))"
    by auto
  then show ?thesis using trim_decompose[of s] by simp
qed

lemma content_processMessage:
  "m_content (processMessage m) = trim (concat (map spec_escape (m_content m)))"
  by (simp add: processMessage_def Let_def replace_twice_escape)

text \<open>
  C7. \<open>processMessage\<close> changes only the content. The new content is the old one with
  every \<open><\<close> replaced by \<open>&lt;\<close> and every \<open>>\<close> by \<open>&gt;\<close>, minus a leading and a
  trailing run of white space: the escaped text is white space, then the new content,
  then white space, and the new content neither starts nor ends with white space. The
  three examples of the specification come out as stated.
\<close>

theorem processMessage_spec:
  "processMessage m = m\<lparr>m_content := m_content (processMessage m)\<rparr> \<and>
   (\<exists>leading trailing.
      list_all isWhiteSpace leading \<and> list_all isWhiteSpace trailing \<and>
      concat (map spec_escape (m_content m)) = leading @ m_content (processMessage m) @ trailing) \<and>
   (m_content (processMessage m) = [] \<or>
      (\<not> isWhiteSpace (hd (m_content (processMessage m))) \<and>
       \<not> isWhiteSpace (last (m_content (processMessage m))))) \<and>
   m_content (processMessage (m\<lparr>m_content := ''<script>alert(1)</script>''\<rparr>))
     = ''&lt;script&gt;alert(1)&lt;/script&gt;'' \<and>
   m_content (processMessage (m\<lparr>m_content := ''  hi  ''\<rparr>)) = ''hi'' \<and>
   m_content (processMessage (m\<lparr>m_content := ''   ''\<rparr>)) = []"
proof (intro conjI)
  let ?e = "concat (map spec_escape (m_content m))"
  show "processMessage m = m\<lparr>m_content := m_content (processMessage m)\<rparr>"
    by (simp add: processMessage_def Let_def)
  have "list_all isWhiteSpace (takeWhile isWhiteSpace ?e)"
    by (simp add: list_all_iff) (metis set_takeWhileD)
  moreover have "list_all isWhiteSpace
      (rev (takeWhile isWhiteSpace (rev (dropWhile isWhiteSpace ?e))))"
    by (simp add: list_all_iff) (metis set_takeWhileD)
  moreover note trim_decompose[of ?e]
  ultimately show "\<exists>leading trailing.
      list_all isWhiteSpace leading \<and> list_all isWhiteSpace trailing \<and>
      ?e = leading @ m_content (processMessage m) @ trailing"
    unfolding content_processMessage by blast
  show "m_content (processMessage m) = [] \<or>
      (\<not> isWhiteSpace (hd (m_content (processMessage m))) \<and>
       \<not> isWhiteSpace (last (m_content (processMessage m))))"
    unfolding content_processMessage using trim_ends[of ?e] by blast
  show "m_content (processMessage (m\<lparr>m_content := ''<script>alert(1)</script>''\<rparr>))
     = ''&lt;script&gt;alert(1)&lt;/script&gt;''"
    by (simp add: processMessage_def Let_def replace_def trim_def isWhiteSpace_def)
  show "m_content (processMessage (m\<lparr>m_content := ''  hi  ''\<rparr>)) = ''hi''"
    by (simp add: processMessage_def Let_def replace_def trim_def isWhiteSpace_def)
  show "m_content (processMessage (m\<lparr>m_content := ''   ''\<rparr>)) = []"
    by (simp add: processMessage_def Let_def replace_def trim_def isWhiteSpace_def)
qed

text \<open>
  C8. Sanitizing twice gives the same message as sanitizing once: the first pass leaves
  no \<open><\<close> or \<open>>\<close> and no white space at either end, and \<open>&\<close> is not escaped.
\<close>

theorem processMessage_idempotent:
  "processMessage (processMessage m) = processMessage m"
proof -
  let ?c = "m_content (processMessage m)"
  have "set ?c \<subseteq> set (concat (map spec_escape (m_content m)))"
    unfolding content_processMessage by (rule set_trim)
  with escape_no_angle[of "m_content m"]
  have "CHR ''<'' \<notin> set ?c" and "CHR ''>'' \<notin> set ?c" by blast+
  then have "replace (replace ?c CHR ''<'' ''&lt;'') CHR ''>'' ''&gt;'' = ?c"
    by (simp add: replace_absent)
  moreover have "trim ?c = ?c"
    unfolding content_processMessage by (rule trim_idem)
  ultimately have "m_content (processMessage (processMessage m)) = ?c"
    by (simp add: processMessage_def[of "processMessage m"] Let_def)
  then show ?thesis
    by (simp add: processMessage_def[of "processMessage m"] Let_def)
qed

theorem processMessage_spec_witness:
  "processMessage example_message = example_message\<lparr>m_content := ''&lt;b&gt; hi''\<rparr>"
proof -
  from processMessage_spec[of example_message]
  have "processMessage example_message
          = example_message\<lparr>m_content := m_content (processMessage example_message)\<rparr>"
    by (elim conjE)
  moreover have "m_content (processMessage example_message) = ''&lt;b&gt; hi''"
    by (simp add: example_message_def processMessage_def Let_def replace_def trim_def
          isWhiteSpace_def)
  ultimately show ?thesis by simp
qed

section \<open>The activity tracker\<close>

lemma card_keys: "distinct (map fst al) \<Longrightarrow> card (fst ` set al) = length al"
  using distinct_card[of "map fst al"] by simp

lemma transform_state:
  "userActivity (snd (transform st data now))
     = AList.update (u_id (a_user data)) now (userActivity st)"
  by (simp add: transform_def Let_def)

lemma transform_out:
  "fst (transform st data now) =
     \<lparr>o_user = a_user data, o_action = a_action data, o_lastActivity = Some now,
      o_activeUsers = length (AList.update (u_id (a_user data)) now (userActivity st))\<rparr>"
  by (simp add: transform_def Let_def update_conv')

lemma delete_filter_entry:
  assumes "distinct (map fst al)" and "(k, v) \<in> set al"
  shows "AList.delete k al = filter (\<lambda>e. e \<noteq> (k, v)) al"
proof -
  have same: "fst e \<noteq> k \<longleftrightarrow> e \<noteq> (k, v)" if "e \<in> set al" for e
    using assms that by (metis eq_key_imp_eq_value fst_conv prod.collapse)
  have "AList.delete k al = filter (\<lambda>(k', _). k \<noteq> k') al"
    by (simp add: AList.delete_eq)
  also have "\<dots> = filter (\<lambda>e. e \<noteq> (k, v)) al"
  proof (rule filter_cong[OF refl])
    fix e
    assume "e \<in> set al"
    from same[OF this] show "(case e of (k', _) \<Rightarrow> k \<noteq> k') = (e \<noteq> (k, v))"
      by (cases e) auto
  qed
  finally show ?thesis .
qed

lemma prune_filter:
  assumes "distinct (map fst entries)" and "distinct (map fst ua)" and "set entries \<subseteq> set ua"
  shows "prune entries c ua = filter (\<lambda>e. \<not> (e \<in> set entries \<and> snd e < c)) ua"
  using assms
proof (induction entries arbitrary: ua)
  case Nil
  then show ?case by simp
next
  case (Cons x entries)
  obtain userId lastActivity where x: "x = (userId, lastActivity)" by (cases x)
  from Cons.prems x have d: "distinct (map fst entries)" and n: "userId \<notin> fst ` set entries"
    and m: "(userId, lastActivity) \<in> set ua" and sub: "set entries \<subseteq> set ua"
    by auto
  show ?case
  proof (cases "lastActivity < c")
    case True
    let ?ua = "AList.delete userId ua"
    have del: "?ua = filter (\<lambda>e. e \<noteq> (userId, lastActivity)) ua"
      using Cons.prems(2) m by (rule delete_filter_entry)
    have "distinct (map fst ?ua)" using Cons.prems(2) by (rule distinct_delete)
    moreover have "set entries \<subseteq> set ?ua"
      using sub n unfolding del by force
    ultimately have "prune entries c ?ua
        = filter (\<lambda>e. \<not> (e \<in> set entries \<and> snd e < c)) ?ua"
      using d Cons.IH by blast
    also have "\<dots> = filter (\<lambda>e. \<not> (e \<in> set (x # entries) \<and> snd e < c)) ua"
      unfolding del filter_filter using True x by (intro filter_cong) auto
    finally show ?thesis using True x by simp
  next
    case False
    have "prune entries c ua = filter (\<lambda>e. \<not> (e \<in> set entries \<and> snd e < c)) ua"
      using d Cons.prems(2) sub Cons.IH by blast
    also have "\<dots> = filter (\<lambda>e. \<not> (e \<in> set (x # entries) \<and> snd e < c)) ua"
      using False x by (intro filter_cong) auto
    finally show ?thesis using False x by simp
  qed
qed

lemma prune_all:
  assumes "distinct (map fst ua)"
  shows "prune ua c ua = filter (\<lambda>(userId, lastActivity). \<not> lastActivity < c) ua"
proof -
  have "prune ua c ua = filter (\<lambda>e. \<not> (e \<in> set ua \<and> snd e < c)) ua"
    using assms by (intro prune_filter) simp_all
  also have "\<dots> = filter (\<lambda>(userId, lastActivity). \<not> lastActivity < c) ua"
    by (intro filter_cong) auto
  finally show ?thesis .
qed

lemma distinct_transform:
  "distinct (map fst (userActivity st))
     \<Longrightarrow> distinct (map fst (userActivity (snd (transform st data now))))"
  by (simp add: transform_state distinct_update)

lemma keys_transform:
  "fst ` set (userActivity (snd (transform st data now)))
     = insert (u_id (a_user data)) (fst ` set (userActivity st))"
  by (simp add: transform_state dom_update)

lemma count_transform:
  assumes "distinct (map fst (userActivity st))"
  shows "o_activeUsers (fst (transform st data now))
           = card (fst ` set (userActivity (snd (transform st data now))))"
proof -
  have "card (fst ` set (userActivity (snd (transform st data now))))
          = length (userActivity (snd (transform st data now)))"
    using distinct_transform[OF assms] by (rule card_keys)
  then show ?thesis by (simp add: transform_out transform_state)
qed

lemma feed_Cons:
  "fst (feed st ((data, now) # evs))
     = fst (transform st data now) # fst (feed (snd (transform st data now)) evs)"
  by (simp add: split_beta)

lemma feed_nth:
  assumes "distinct (map fst (userActivity st))" and "i < length evs"
  shows "o_activeUsers (fst (feed st evs) ! i)
           = card (fst ` set (userActivity st)
                     \<union> (\<lambda>e. u_id (a_user (fst e))) ` set (take (Suc i) evs))"
  using assms
proof (induction evs arbitrary: st i)
  case Nil
  then show ?case by simp
next
  case (Cons ev evs)
  obtain data now where ev: "ev = (data, now)" by (cases ev)
  note d = distinct_transform[OF Cons.prems(1), of data now]
  show ?case
  proof (cases i)
    case 0
    then show ?thesis
      using count_transform[OF Cons.prems(1), of data now]
      by (simp add: feed_Cons ev keys_transform del: feed.simps)
  next
    case (Suc j)
    with Cons.prems(2) have j: "j < length evs" by simp
    from Cons.IH[OF d j] Suc show ?thesis
      by (simp add: feed_Cons ev keys_transform del: feed.simps)
  qed
qed

lemma distinct_feed:
  "distinct (map fst (userActivity st))
     \<Longrightarrow> distinct (map fst (userActivity (snd (feed st evs))))"
proof (induction evs arbitrary: st)
  case Nil
  then show ?case by simp
next
  case (Cons ev evs)
  obtain data now where ev: "ev = (data, now)" by (cases ev)
  from Cons.IH[OF distinct_transform[OF Cons.prems, of data now]] show ?case
    by (simp add: ev split_beta)
qed

text \<open>The keys of a tracker fed from the constructor are distinct.\<close>

lemma distinct_reachable:
  "distinct (map fst (userActivity (snd (feed new_UserActivityTransform evs))))"
  by (intro distinct_feed) (simp add: new_UserActivityTransform_def)

lemma getActiveUsers_state:
  "distinct (map fst (userActivity st)) \<Longrightarrow>
   userActivity (snd (getActiveUsers st now))
     = filter (\<lambda>(userId, lastActivity). now - lastActivity \<le> 5 * 60 * 1000) (userActivity st)"
proof -
  assume "distinct (map fst (userActivity st))"
  then have "userActivity (snd (getActiveUsers st now))
     = filter (\<lambda>(userId, lastActivity). \<not> lastActivity < now - 5 * 60 * 1000) (userActivity st)"
    by (simp add: getActiveUsers_def Let_def prune_all)
  also have "\<dots> = filter (\<lambda>(userId, lastActivity). now - lastActivity \<le> 5 * 60 * 1000)
                      (userActivity st)"
    by (intro filter_cong) auto
  finally show ?thesis .
qed

text \<open>
  C9. Processing an event stores the time of processing for its user and keeps every
  other entry, so the tracked ids are the old ones and the event's. The object emitted
  is the event with that time and with the number of distinct tracked ids; fed to a
  new tracker, the \<open>i\<close>-th event of any sequence is emitted with the number of distinct
  user ids among the events up to it, so two events of two distinct users are emitted
  with the counts 1 and 2. \<open>getActiveUsers\<close> keeps exactly the entries whose last
  activity is at most five minutes before the time of the call, in their order, and
  returns how many are left.
\<close>

theorem activity_tracker_spec:
  assumes "distinct (map fst (userActivity st))"
  shows
   "map_of (userActivity (snd (transform st data now))) (u_id (a_user data)) = Some now \<and>
    (k \<noteq> u_id (a_user data) \<longrightarrow>
       map_of (userActivity (snd (transform st data now))) k = map_of (userActivity st) k) \<and>
    fst ` set (userActivity (snd (transform st data now)))
      = insert (u_id (a_user data)) (fst ` set (userActivity st)) \<and>
    distinct (map fst (userActivity (snd (transform st data now)))) \<and>
    fst (transform st data now) =
      \<lparr>o_user = a_user data, o_action = a_action data, o_lastActivity = Some now,
       o_activeUsers = card (fst ` set (userActivity (snd (transform st data now))))\<rparr> \<and>
    (i < length evs \<longrightarrow>
       o_activeUsers (fst (feed new_UserActivityTransform evs) ! i)
         = card ((\<lambda>e. u_id (a_user (fst e))) ` set (take (Suc i) evs))) \<and>
    (u_id u1 \<noteq> u_id u2 \<longrightarrow>
       map o_activeUsers
         (fst (feed new_UserActivityTransform
            [(\<lparr>a_user = u1, a_action = x1\<rparr>, t1), (\<lparr>a_user = u2, a_action = x2\<rparr>, t2)]))
         = [1, 2]) \<and>
    userActivity (snd (getActiveUsers st now))
      = filter (\<lambda>(userId, lastActivity). now - lastActivity \<le> 5 * 60 * 1000) (userActivity st) \<and>
    fst (getActiveUsers st now) = length (userActivity (snd (getActiveUsers st now))) \<and>
    distinct (map fst (userActivity (snd (getActiveUsers st now))))"
proof (intro conjI impI)
  show "map_of (userActivity (snd (transform st data now))) (u_id (a_user data)) = Some now"
    by (simp add: transform_state update_conv')
  show "map_of (userActivity (snd (transform st data now))) k = map_of (userActivity st) k"
    if "k \<noteq> u_id (a_user data)"
    using that by (simp add: transform_state update_conv')
  show "fst ` set (userActivity (snd (transform st data now)))
      = insert (u_id (a_user data)) (fst ` set (userActivity st))"
    by (rule keys_transform)
  show "distinct (map fst (userActivity (snd (transform st data now))))"
    using assms by (rule distinct_transform)
  show "fst (transform st data now) =
      \<lparr>o_user = a_user data, o_action = a_action data, o_lastActivity = Some now,
       o_activeUsers = card (fst ` set (userActivity (snd (transform st data now))))\<rparr>"
    using count_transform[OF assms, of data now] by (simp add: transform_out)
  show "o_activeUsers (fst (feed new_UserActivityTransform evs) ! i)
         = card ((\<lambda>e. u_id (a_user (fst e))) ` set (take (Suc i) evs))"
    if "i < length evs"
    using feed_nth[of new_UserActivityTransform i evs] that
    by (simp add: new_UserActivityTransform_def)
  show "map o_activeUsers
         (fst (feed new_UserActivityTransform
            [(\<lparr>a_user = u1, a_action = x1\<rparr>, t1), (\<lparr>a_user = u2, a_action = x2\<rparr>, t2)]))
         = [1, 2]"
    if "u_id u1 \<noteq> u_id u2"
    using that by (simp add: new_UserActivityTransform_def transform_def Let_def)
  show s: "userActivity (snd (getActiveUsers st now))
      = filter (\<lambda>(userId, lastActivity). now - lastActivity \<le> 5 * 60 * 1000) (userActivity st)"
    using assms by (rule getActiveUsers_state)
  show "fst (getActiveUsers st now) = length (userActivity (snd (getActiveUsers st now)))"
    by (simp add: getActiveUsers_def Let_def)
  show "distinct (map fst (userActivity (snd (getActiveUsers st now))))"
    unfolding s using assms by (simp add: distinct_map_filter)
qed

lemma st_two_users_eq: "userActivity st_two_users = [(''u1'', 0), (''u2'', 1000)]"
  by (simp add: st_two_users_def two_events_def new_UserActivityTransform_def transform_def
        Let_def alice_def bob_def)

theorem activity_tracker_spec_witness:
  "distinct (map fst (userActivity st_two_users)) \<and>
   map o_activeUsers (fst (feed new_UserActivityTransform two_events)) = [1, 2] \<and>
   fst (getActiveUsers st_two_users 300000) = 2 \<and>
   fst (getActiveUsers st_two_users 300001) = 1 \<and>
   fst (getActiveUsers st_two_users 400000) = 0"
proof -
  have d: "distinct (map fst (userActivity st_two_users))"
    by (simp add: st_two_users_eq)
  have n: "u_id alice \<noteq> u_id bob" by (simp add: alice_def bob_def)
  from activity_tracker_spec[OF d, of _ _ _ 0 "[]" alice bob "''joined''" 0 "''joined''" 1000] n
  have a: "map o_activeUsers (fst (feed new_UserActivityTransform two_events)) = [1, 2]"
    by (simp add: two_events_def)
  have b: "fst (getActiveUsers st_two_users t)
      = length (filter (\<lambda>(userId, lastActivity). t - lastActivity \<le> 5 * 60 * 1000)
                  (userActivity st_two_users))" for t
    using activity_tracker_spec[OF d, of _ t] by simp
  from d a b[of 300000] b[of 300001] b[of 400000] show ?thesis
    by (simp add: st_two_users_eq)
qed

end
